theory Spec2Isabelle
  imports Complex_Main "HOL-Library.AList" "HOL-Library.Log_Nat"
begin

text \<open>
  The chart pipeline of the data agent's page script: \<open>aggregateDataForChart\<close>,
  \<open>renderChart\<close> and \<open>updateResults\<close> of the aggregating variant of the script, and
  \<open>renderChart\<close> and \<open>updateInsights\<close> of the earlier variant \<open>static/script.js\<close>. The
  functions are embedded as they are written, over a model of the JavaScript values and
  built-in operations they use.
\<close>

section \<open>JavaScript numbers\<close>

text \<open>
  Numbers are IEEE 754 binary64 values: the finite ones are modelled by the rational they
  denote (\<open>Fin 0\<close> is \<open>+0\<close>); negative zero, the infinities and \<open>NaN\<close> are constructors
  of their own.
\<close>

datatype jsnum = NaN | PInf | NInf | NZero | Fin rat

definition round_half_even :: "rat \<Rightarrow> int" where
  "round_half_even m =
     (let f = \<lfloor>m\<rfloor>; d = m - of_int f in
      if d < 1 / 2 then f else if 1 / 2 < d then f + 1 else if even f then f else f + 1)"

text \<open>\<open>floor_log2 a\<close> is the integer \<open>e\<close> with \<open>2 ^ e \<le> a < 2 ^ (e + 1)\<close>, for \<open>a > 0\<close>.\<close>

definition floor_log2 :: "rat \<Rightarrow> int" where
  "floor_log2 a = (if 1 \<le> a then bitlen \<lfloor>a\<rfloor> - 1 else - bitlen (\<lceil>1 / a\<rceil> - 1))"

text \<open>
  Rounding of a real value to binary64, to nearest with ties to even: 53 significant bits,
  exponents from \<open>-1022\<close> (below it the spacing stays \<open>2 ^ -1074\<close>), overflow to infinity.
\<close>

definition round_double :: "rat \<Rightarrow> jsnum" where
  "round_double q =
     (let a = \<bar>q\<bar>;
          e = max (floor_log2 a) (- 1022);
          ulp = 2 powi (e - 52);
          r = of_int (round_half_even (a / ulp)) * ulp
      in if 2 powi 1024 \<le> r then (if q < 0 then NInf else PInf)
         else if r = 0 then (if q < 0 then NZero else Fin 0)
         else Fin (if q < 0 then - r else r))"

text \<open>The numeric \<open>+\<close> of two numbers.\<close>

fun num_add :: "jsnum \<Rightarrow> jsnum \<Rightarrow> jsnum" where
  "num_add NaN y = NaN"
| "num_add x NaN = NaN"
| "num_add PInf NInf = NaN"
| "num_add NInf PInf = NaN"
| "num_add PInf y = PInf"
| "num_add x PInf = PInf"
| "num_add NInf y = NInf"
| "num_add x NInf = NInf"
| "num_add NZero y = y"
| "num_add x NZero = x"
| "num_add (Fin a) (Fin b) = (if a + b = 0 then Fin 0 else round_double (a + b))"

fun num_neg :: "jsnum \<Rightarrow> jsnum" where
  "num_neg NaN = NaN"
| "num_neg PInf = NInf"
| "num_neg NInf = PInf"
| "num_neg NZero = Fin 0"
| "num_neg (Fin q) = (if q = 0 then NZero else Fin (- q))"

section \<open>Strings and the conversions between strings and numbers\<close>

text \<open>
  A \<open>string\<close> stands for a JavaScript string whose code units are below 256; a \<open>char\<close>
  is its code unit.
\<close>

definition is_digit :: "char \<Rightarrow> bool" where
  "is_digit c = (48 \<le> (of_char c :: nat) \<and> (of_char c :: nat) \<le> 57)"

definition nat_of_digits :: "string \<Rightarrow> nat" where
  "nat_of_digits ds = foldl (\<lambda>n c. 10 * n + (of_char c - 48)) 0 ds"

fun digits_of_nat :: "nat \<Rightarrow> string" where
  "digits_of_nat n =
     (if n < 10 then [''0123456789'' ! n]
      else digits_of_nat (n div 10) @ [''0123456789'' ! (n mod 10)])"

declare digits_of_nat.simps [simp del]

text \<open>White space and line terminators that \<open>parseFloat\<close> skips, among the code units below 256.\<close>

definition is_white_space :: "char \<Rightarrow> bool" where
  "is_white_space c = ((of_char c :: nat) \<in> {9, 10, 11, 12, 13, 32, 160})"

fun split_sign :: "string \<Rightarrow> bool \<times> string" where
  "split_sign [] = (False, [])"
| "split_sign (c # cs) =
     (if c = CHR ''-'' then (True, cs) else if c = CHR ''+'' then (False, cs) else (False, c # cs))"

text \<open>The value of an \<open>ExponentPart\<close> at the head of the string; 0 when there is none.\<close>

definition exponent_part :: "string \<Rightarrow> int" where
  "exponent_part s =
     (case s of
        [] \<Rightarrow> 0
      | c # r \<Rightarrow>
          if c = CHR ''e'' \<or> c = CHR ''E'' then
            (let ds = takeWhile is_digit (snd (split_sign r)) in
             if ds = [] then 0
             else if fst (split_sign r) then - int (nat_of_digits ds)
             else int (nat_of_digits ds))
          else 0)"

text \<open>
  The mathematical value of the longest prefix that is an unsigned decimal literal:
  digits, then optionally a point and more digits, or a point and digits; then optionally
  an exponent. \<open>None\<close> when no prefix is one.
\<close>

definition unsigned_decimal :: "string \<Rightarrow> rat option" where
  "unsigned_decimal s =
     (let ip = takeWhile is_digit s;
          r1 = dropWhile is_digit s;
          dotted = (case r1 of [] \<Rightarrow> False | c # t \<Rightarrow> c = CHR ''.'');
          fp = (if dotted then takeWhile is_digit (tl r1) else []);
          r2 = (if dotted then dropWhile is_digit (tl r1) else r1)
      in if ip = [] \<and> fp = [] then None
         else Some (of_nat (nat_of_digits (ip @ fp)) * 10 powi (exponent_part r2 - int (length fp))))"

text \<open>\<open>parseFloat\<close> on a string.\<close>

definition parse_float_string :: "string \<Rightarrow> jsnum" where
  "parse_float_string s =
     (let t = dropWhile is_white_space s;
          neg = fst (split_sign t);
          u = snd (split_sign t)
      in if take 8 u = ''Infinity'' then (if neg then NInf else PInf)
         else (case unsigned_decimal u of
                 None \<Rightarrow> NaN
               | Some mv \<Rightarrow> if neg then num_neg (round_double mv) else round_double mv))"

text \<open>\<open>floor_log10 a\<close> is the integer \<open>e\<close> with \<open>10 ^ e \<le> a < 10 ^ (e + 1)\<close>, for \<open>a > 0\<close>.\<close>

definition floor_log10 :: "rat \<Rightarrow> int" where
  "floor_log10 a =
     (if 1 \<le> a then int (floorlog 10 (nat \<lfloor>a\<rfloor>)) - 1
      else - int (floorlog 10 (nat (\<lceil>1 / a\<rceil> - 1))))"

text \<open>
  \<open>Number::toString\<close>: the digits \<open>s\<close> (\<open>k\<close> of them) and the exponent \<open>n\<close> with
  \<open>s * 10 ^ (n - k)\<close> rounding to the number, \<open>k\<close> as small as possible, and \<open>s\<close> as close
  to the number as possible. For \<open>k\<close> digits the two candidates are the neighbours of
  \<open>x\<close> on the grid of \<open>k\<close>-digit decimals.
\<close>

definition digit_candidates :: "rat \<Rightarrow> nat \<Rightarrow> (nat \<times> int) list" where
  "digit_candidates x k =
     (let n = floor_log10 x + 1;
          lo = nat \<lfloor>x / 10 powi (n - int k)\<rfloor>
      in [(lo, n), (if lo + 1 = 10 ^ k then (10 ^ (k - 1), n + 1) else (lo + 1, n))])"

definition decimal_value :: "nat \<Rightarrow> nat \<times> int \<Rightarrow> rat" where
  "decimal_value k c = of_nat (fst c) * 10 powi (snd c - int k)"

definition closest_candidate :: "rat \<Rightarrow> nat \<Rightarrow> (nat \<times> int) list \<Rightarrow> nat \<times> int" where
  "closest_candidate x k cs =
     (case cs of
        [c] \<Rightarrow> c
      | [c, d] \<Rightarrow>
          (let dc = \<bar>decimal_value k c - x\<bar>; dd = \<bar>decimal_value k d - x\<bar> in
           if dc < dd then c else if dd < dc then d else if even (fst c) then c else d)
      | _ \<Rightarrow> (0, 0))"

function shortest_digits :: "rat \<Rightarrow> nat \<Rightarrow> nat \<times> nat \<times> int" where
  "shortest_digits x k =
     (let ok = filter (\<lambda>c. round_double (decimal_value k c) = Fin x) (digit_candidates x k) in
      if 17 \<le> k then (k, closest_candidate x k (digit_candidates x k))
      else if ok = [] then shortest_digits x (Suc k)
      else (k, closest_candidate x k ok))"
  by pat_completeness auto
termination
  by (relation "measure (\<lambda>(x, k). 17 - k)") auto

declare shortest_digits.simps [simp del]

definition positive_to_string :: "rat \<Rightarrow> string" where
  "positive_to_string x =
     (let r = shortest_digits x 1;
          k = fst r;
          ds = digits_of_nat (fst (snd r));
          n = snd (snd r);
          ex = (if 0 < n - 1 then ''e+'' else ''e-'') @ digits_of_nat (nat \<bar>n - 1\<bar>)
      in if int k \<le> n \<and> n \<le> 21 then ds @ replicate (nat (n - int k)) (CHR ''0'')
         else if 0 < n \<and> n \<le> 21 then take (nat n) ds @ ''.'' @ drop (nat n) ds
         else if - 6 < n \<and> n \<le> 0 then ''0.'' @ replicate (nat (- n)) (CHR ''0'') @ ds
         else if k = 1 then ds @ ex
         else take 1 ds @ ''.'' @ drop 1 ds @ ex)"

fun number_to_string :: "jsnum \<Rightarrow> string" where
  "number_to_string NaN = ''NaN''"
| "number_to_string PInf = ''Infinity''"
| "number_to_string NInf = ''-Infinity''"
| "number_to_string NZero = ''0''"
| "number_to_string (Fin q) =
     (if q = 0 then ''0''
      else if q < 0 then ''-'' @ positive_to_string (- q)
      else positive_to_string q)"

text \<open>
  \<open>toLowerCase\<close> on code units below 256: the ASCII capitals and the capitals of the
  Latin-1 block (\<open>0xC0\<close> to \<open>0xDE\<close> without \<open>0xD7\<close>) move up by 32.
\<close>

definition to_lower_char :: "char \<Rightarrow> char" where
  "to_lower_char c =
     (let n = (of_char c :: nat) in
      if (65 \<le> n \<and> n \<le> 90) \<or> (192 \<le> n \<and> n \<le> 214) \<or> (216 \<le> n \<and> n \<le> 222)
      then char_of (n + 32) else c)"

definition toLowerCase :: "string \<Rightarrow> string" where
  "toLowerCase s = map to_lower_char s"

section \<open>Values, rows and objects\<close>

text \<open>
  Every object literal and every parsed JSON object inherits from \<open>Object.prototype\<close>,
  so reading a property an object does not own can yield one of the prototype's members.
  These are the only non-primitive values the pipeline meets.
\<close>

datatype builtin = ObjectPrototype | NativeFunction string

datatype jsval = JUndefined | JNull | JBool bool | JNum jsnum | JStr string | JBuiltin builtin

definition object_prototype_member :: "string \<Rightarrow> jsval option" where
  "object_prototype_member k =
     (if k = ''__proto__'' then Some (JBuiltin ObjectPrototype)
      else if k = ''constructor'' then Some (JBuiltin (NativeFunction ''Object''))
      else if k \<in> set [''__defineGetter__'', ''__defineSetter__'', ''__lookupGetter__'',
                         ''__lookupSetter__'', ''hasOwnProperty'', ''isPrototypeOf'',
                         ''propertyIsEnumerable'', ''toLocaleString'', ''toString'', ''valueOf'']
      then Some (JBuiltin (NativeFunction k))
      else None)"

text \<open>
  \<open>String(v)\<close>, which is also the property key \<open>v\<close> stands for in \<open>obj[v]\<close>. The text of
  a native function is the engine's; it is given as V8 prints it.
\<close>

fun to_string :: "jsval \<Rightarrow> string" where
  "to_string JUndefined = ''undefined''"
| "to_string JNull = ''null''"
| "to_string (JBool b) = (if b then ''true'' else ''false'')"
| "to_string (JNum n) = number_to_string n"
| "to_string (JStr s) = s"
| "to_string (JBuiltin ObjectPrototype) = ''[object Object]''"
| "to_string (JBuiltin (NativeFunction f)) = ''function '' @ f @ ''() { [native code] }''"

definition parseFloat :: "jsval \<Rightarrow> jsnum" where
  "parseFloat v = parse_float_string (to_string v)"

fun truthy :: "jsval \<Rightarrow> bool" where
  "truthy JUndefined = False"
| "truthy JNull = False"
| "truthy (JBool b) = b"
| "truthy (JNum n) = (n \<noteq> NaN \<and> n \<noteq> NZero \<and> n \<noteq> Fin 0)"
| "truthy (JStr s) = (s \<noteq> [])"
| "truthy (JBuiltin b) = True"

text \<open>\<open>a || b\<close>\<close>

definition js_or :: "jsval \<Rightarrow> jsval \<Rightarrow> jsval" where
  "js_or a b = (if truthy a then a else b)"

text \<open>
  \<open>a + b\<close>: both operands are made primitive (an object by its string form); if one is
  a string the result is the concatenation of the two string forms, else the numeric sum.
  \<open>operand_number\<close> is \<open>ToNumber\<close> on the primitives that are not strings, the only
  ones the numeric case meets.
\<close>

fun to_primitive :: "jsval \<Rightarrow> jsval" where
  "to_primitive (JBuiltin b) = JStr (to_string (JBuiltin b))"
| "to_primitive v = v"

fun operand_number :: "jsval \<Rightarrow> jsnum" where
  "operand_number JNull = Fin 0"
| "operand_number (JBool b) = (if b then Fin 1 else Fin 0)"
| "operand_number (JNum n) = n"
| "operand_number v = NaN"

fun is_string :: "jsval \<Rightarrow> bool" where
  "is_string (JStr s) = True"
| "is_string v = False"

definition js_plus :: "jsval \<Rightarrow> jsval \<Rightarrow> jsval" where
  "js_plus a b =
     (let p = to_primitive a; q = to_primitive b in
      if is_string p \<or> is_string q then JStr (to_string p @ to_string q)
      else JNum (num_add (operand_number p) (operand_number q)))"

text \<open>
  A row is a parsed JSON object whose members are scalars. \<open>row[key]\<close> is the row's own
  member, else the inherited one, else \<open>undefined\<close>.
\<close>

datatype cell = CNull | CBool bool | CNum jsnum | CStr string

type_synonym row = "string \<rightharpoonup> cell"

fun cell_value :: "cell \<Rightarrow> jsval" where
  "cell_value CNull = JNull"
| "cell_value (CBool b) = JBool b"
| "cell_value (CNum n) = JNum n"
| "cell_value (CStr s) = JStr s"

definition inherited :: "string \<Rightarrow> jsval" where
  "inherited k = (case object_prototype_member k of None \<Rightarrow> JUndefined | Some v \<Rightarrow> v)"

definition row_get :: "row \<Rightarrow> string \<Rightarrow> jsval" where
  "row_get r k = (case r k of None \<Rightarrow> inherited k | Some c \<Rightarrow> cell_value c)"

text \<open>
  The accumulators \<open>counts\<close>, \<open>aggregated\<close> and \<open>grouped\<close> are object literals \<open>{}\<close> used
  as dictionaries: the own properties in creation order. An assignment updates an own
  property in place or creates it at the end; an assignment to \<open>__proto__\<close> that the object
  does not own reaches the inherited setter, which ignores a primitive value (the pipeline
  assigns only results of \<open>+\<close>, numbers and strings).
\<close>

type_synonym jsobject = "(string \<times> jsval) list"

definition obj_get :: "jsobject \<Rightarrow> string \<Rightarrow> jsval" where
  "obj_get obj k = (case map_of obj k of None \<Rightarrow> inherited k | Some v \<Rightarrow> v)"

definition obj_set :: "jsobject \<Rightarrow> string \<Rightarrow> jsval \<Rightarrow> jsobject" where
  "obj_set obj k v =
     (if k = ''__proto__'' \<and> map_of obj k = None then obj else AList.update k v obj)"

text \<open>
  \<open>Object.keys\<close> and \<open>Object.values\<close> list the own properties in the order of
  \<open>OrdinaryOwnPropertyKeys\<close>: the keys that are array indices (canonical decimal numerals
  below \<open>2 ^ 32 - 1\<close>) first, in ascending numeric order, then the other keys in creation
  order.
\<close>

definition is_array_index :: "string \<Rightarrow> bool" where
  "is_array_index k =
     (k \<noteq> [] \<and> list_all is_digit k \<and> (k = ''0'' \<or> hd k \<noteq> CHR ''0'')
      \<and> nat_of_digits k < 4294967295)"

definition own_entries :: "jsobject \<Rightarrow> (string \<times> jsval) list" where
  "own_entries obj =
     sort_key (\<lambda>p. nat_of_digits (fst p)) (filter (\<lambda>p. is_array_index (fst p)) obj)
     @ filter (\<lambda>p. \<not> is_array_index (fst p)) obj"

definition object_keys :: "jsobject \<Rightarrow> string list" where
  "object_keys obj = map fst (own_entries obj)"

definition object_values :: "jsobject \<Rightarrow> jsval list" where
  "object_values obj = map snd (own_entries obj)"

section \<open>aggregateDataForChart\<close>

text \<open>The object \<open>{labels: ..., values: ...}\<close> that \<open>aggregateDataForChart\<close> returns.\<close>

record aggregate_result =
  labels :: "string list"
  values' :: "jsval list"

text \<open>
  The body of the first \<open>forEach\<close>:
  \<^verbatim>\<open>const label = row[labelKey]; counts[label] = (counts[label] || 0) + 1;\<close>
\<close>

definition count_row :: "string \<Rightarrow> jsobject \<Rightarrow> row \<Rightarrow> jsobject" where
  "count_row labelKey counts r =
     (let label = to_string (row_get r labelKey) in
      obj_set counts label (js_plus (js_or (obj_get counts label) (JNum (Fin 0))) (JNum (Fin 1))))"

text \<open>\<^verbatim>\<open>parseFloat(row[dataKey]) || 0\<close>\<close>

definition row_value :: "string \<Rightarrow> row \<Rightarrow> jsval" where
  "row_value dataKey r = js_or (JNum (parseFloat (row_get r dataKey))) (JNum (Fin 0))"

text \<open>
  The body of the second \<open>forEach\<close>:
  \<^verbatim>\<open>aggregated[label] = (aggregated[label] || 0) + value;\<close>
\<close>

definition sum_row :: "string \<Rightarrow> string \<Rightarrow> jsobject \<Rightarrow> row \<Rightarrow> jsobject" where
  "sum_row labelKey dataKey aggregated r =
     (let label = to_string (row_get r labelKey);
          v = row_value dataKey r
      in obj_set aggregated label
           (js_plus (js_or (obj_get aggregated label) (JNum (Fin 0))) v))"

text \<open>
  The body of the third \<open>forEach\<close>:
  \<^verbatim>\<open>if (!grouped[label]) { grouped[label] = 0; } grouped[label] += value;\<close>
\<close>

definition group_row :: "string \<Rightarrow> string \<Rightarrow> jsobject \<Rightarrow> row \<Rightarrow> jsobject" where
  "group_row labelKey dataKey grouped r =
     (let label = to_string (row_get r labelKey);
          v = row_value dataKey r;
          g = (if \<not> truthy (obj_get grouped label) then obj_set grouped label (JNum (Fin 0))
               else grouped)
      in obj_set g label (js_plus (obj_get g label) v))"

definition result_of :: "jsobject \<Rightarrow> aggregate_result" where
  "result_of obj = \<lparr>labels = object_keys obj, values' = object_values obj\<rparr>"

text \<open>The three branches: counting, the sums of a small complete row set, group and sum.\<close>

definition count_branch :: "row list \<Rightarrow> string \<Rightarrow> aggregate_result" where
  "count_branch rows labelKey = result_of (foldl (count_row labelKey) [] rows)"

definition aggregated_branch :: "row list \<Rightarrow> string \<Rightarrow> string \<Rightarrow> aggregate_result" where
  "aggregated_branch rows labelKey dataKey = result_of (foldl (sum_row labelKey dataKey) [] rows)"

definition grouped_branch :: "row list \<Rightarrow> string \<Rightarrow> string \<Rightarrow> aggregate_result" where
  "grouped_branch rows labelKey dataKey = result_of (foldl (group_row labelKey dataKey) [] rows)"

definition aggregateDataForChart :: "row list \<Rightarrow> string \<Rightarrow> string \<Rightarrow> aggregate_result" where
  "aggregateDataForChart rows labelKey dataKey =
     (if toLowerCase dataKey = ''count'' then count_branch rows labelKey
      else if length rows < 50 \<and> list_all (\<lambda>r. row_get r dataKey \<noteq> JUndefined) rows
      then aggregated_branch rows labelKey dataKey
      else grouped_branch rows labelKey dataKey)"

section \<open>renderChart: from the blueprint to the chart\<close>

text \<open>
  The blueprint the backend sends. \<open>config.data.labels\<close> and \<open>config.data.datasets[0].data\<close>
  name a column, as a bare string or as a sequence of strings; either may be absent.
\<close>

datatype keyspec = Absent | Bare string | Seq "string list"

record blueprint =
  config_type :: "string option"
  data_labels :: keyspec
  dataset_data :: keyspec

datatype js_error = TypeError | Error string

text \<open>
  \<open>x[0]\<close>: the first element of a sequence, the first code unit of a string,
  \<open>undefined\<close> when there is none, a \<open>TypeError\<close> when \<open>x\<close> itself is \<open>undefined\<close>.
\<close>

fun index0 :: "keyspec \<Rightarrow> js_error + jsval" where
  "index0 Absent = Inl TypeError"
| "index0 (Bare s) = Inr (case s of [] \<Rightarrow> JUndefined | c # cs \<Rightarrow> JStr [c])"
| "index0 (Seq xs) = Inr (case xs of [] \<Rightarrow> JUndefined | x # ys \<Rightarrow> JStr x)"

text \<open>
  The \<open>try\<close> block of \<open>renderChart\<close> in the aggregating variant of the script, up to the
  configuration it hands to the chart library. \<open>dataKey.toLowerCase()\<close> and
  \<open>config.type.toUpperCase()\<close> throw a \<open>TypeError\<close> unless they are called on a string;
  the \<open>catch\<close> block turns every error into the placeholder message.
\<close>

definition renderChart :: "blueprint \<Rightarrow> row list \<Rightarrow> js_error + aggregate_result" where
  "renderChart config rows =
     (case index0 (data_labels config) of
        Inl e \<Rightarrow> Inl e
      | Inr labelKey \<Rightarrow>
          (case index0 (dataset_data config) of
             Inl e \<Rightarrow> Inl e
           | Inr dataKey \<Rightarrow>
               (case dataKey of
                  JStr dk \<Rightarrow>
                    (case config_type config of
                       None \<Rightarrow> Inl TypeError
                     | Some t \<Rightarrow> Inr (aggregateDataForChart rows (to_string labelKey) dk))
                | _ \<Rightarrow> Inl TypeError)))"

text \<open>
  The earlier variant of \<open>renderChart\<close> (static/script.js) takes the two fields as they are:
  \<^verbatim>\<open>if (!labelKey || !dataKey) throw new Error(...)\<close>, then
  \<^verbatim>\<open>data.map(row => row[labelKey])\<close> and \<^verbatim>\<open>data.map(row => row[dataKey])\<close>.
  As a property key a sequence stands for its elements joined by commas.
\<close>

fun key_truthy :: "keyspec \<Rightarrow> bool" where
  "key_truthy Absent = False"
| "key_truthy (Bare s) = (s \<noteq> [])"
| "key_truthy (Seq xs) = True"

fun join_comma :: "string list \<Rightarrow> string" where
  "join_comma [] = []"
| "join_comma [x] = x"
| "join_comma (x # y # ys) = x @ '','' @ join_comma (y # ys)"

fun property_key :: "keyspec \<Rightarrow> string" where
  "property_key Absent = ''undefined''"
| "property_key (Bare s) = s"
| "property_key (Seq xs) = join_comma xs"

record raw_chart =
  raw_labels :: "jsval list"
  raw_values :: "jsval list"

definition renderChart_script :: "blueprint \<Rightarrow> row list \<Rightarrow> js_error + raw_chart" where
  "renderChart_script config rows =
     (if key_truthy (data_labels config) \<and> key_truthy (dataset_data config)
      then Inr \<lparr>raw_labels = map (\<lambda>r. row_get r (property_key (data_labels config))) rows,
                raw_values = map (\<lambda>r. row_get r (property_key (dataset_data config))) rows\<rparr>
      else Inl (Error ''AI blueprint is missing label or data key.''))"

section \<open>First-encountered order\<close>

text \<open>
  The order the specification asks of the labels: every value at the place of its first
  occurrence.
\<close>

fun first_seen :: "'a list \<Rightarrow> 'a list" where
  "first_seen [] = []"
| "first_seen (x # xs) = x # filter (\<lambda>y. y \<noteq> x) (first_seen xs)"

definition label_of :: "string \<Rightarrow> row \<Rightarrow> string" where
  "label_of labelKey r = to_string (row_get r labelKey)"

section \<open>The page state: which charts are alive\<close>

text \<open>
  The chart library is not part of the repository. What the claims need of it is which
  chart instances are alive: \<open>new Chart(ctx, config)\<close> creates an instance bound to the
  canvas of \<open>ctx\<close>, and \<open>chart.destroy()\<close> releases it. A chart instance is modelled by
  a number, and the library by the list of the live instances with their canvases.
  \<open>new Chart\<close> is taken to succeed once the configuration has been resolved. JavaScript
  runs each event handler to its end, so one call of \<open>updateResults\<close> or
  \<open>updateInsights\<close> is one step of the page.
\<close>

text \<open>
  The aggregating variant of the script keeps \<open>chartInstances\<close>, an object from the chart
  number (1 to 4, the canvas \<open>chart1\<close> to \<open>chart4\<close>) to the instance drawn there.
\<close>

record page =
  chartInstances :: "(nat \<times> nat) list"
  live_charts :: "(nat \<times> nat) list"
  next_chart :: nat

record response =
  results :: "row list"
  charts :: "blueprint list"

definition initial_page :: page where
  "initial_page = \<lparr>chartInstances = [], live_charts = [], next_chart = 0\<rparr>"

definition destroy :: "nat \<Rightarrow> page \<Rightarrow> page" where
  "destroy c p = p\<lparr>live_charts := filter (\<lambda>lc. fst lc \<noteq> c) (live_charts p)\<rparr>"

definition new_Chart :: "nat \<Rightarrow> page \<Rightarrow> page" where
  "new_Chart canvas p =
     p\<lparr>live_charts := live_charts p @ [(next_chart p, canvas)], next_chart := Suc (next_chart p)\<rparr>"

text \<open>
  \<open>renderChart(chartNum, chartData, data)\<close> as a step of the page: when the \<open>try\<close> block
  throws, the \<open>catch\<close> block shows the placeholder and no chart is created; else
  \<^verbatim>\<open>chartInstances[chartNum] = new Chart(canvas.getContext('2d'), config)\<close>.
\<close>

definition renderChart_page :: "row list \<Rightarrow> page \<Rightarrow> nat \<times> blueprint \<Rightarrow> page" where
  "renderChart_page rows p numbered =
     (case renderChart (snd numbered) rows of
        Inl e \<Rightarrow> p
      | Inr config \<Rightarrow>
          (new_Chart (fst numbered) p)
            \<lparr>chartInstances := AList.update (fst numbered) (next_chart p) (chartInstances p)\<rparr>)"

text \<open>
  \<^verbatim>\<open>Object.values(chartInstances).forEach(chart => chart.destroy()); chartInstances = {};\<close>
\<close>

definition destroy_all :: "page \<Rightarrow> page" where
  "destroy_all p =
     (foldl (\<lambda>q c. destroy c q) p (map snd (chartInstances p)))\<lparr>chartInstances := []\<rparr>"

text \<open>
  \<^verbatim>\<open>data.analysis.charts.slice(0, 4).forEach((chartData, index) =>
      renderChart(index + 1, chartData, data.results))\<close>
\<close>

definition numbered_charts :: "response \<Rightarrow> (nat \<times> blueprint) list" where
  "numbered_charts resp = enumerate 1 (take 4 (charts resp))"

definition updateResults :: "response \<Rightarrow> page \<Rightarrow> page" where
  "updateResults resp p =
     foldl (renderChart_page (results resp)) (destroy_all p) (numbered_charts resp)"

text \<open>The state of the page inside \<open>updateResults\<close>, after \<open>k\<close> rounds of the loop.\<close>

definition loop_state :: "response \<Rightarrow> page \<Rightarrow> nat \<Rightarrow> page" where
  "loop_state resp p k =
     foldl (renderChart_page (results resp)) (destroy_all p) (take k (numbered_charts resp))"

inductive_set reachable_pages :: "page set" where
  initial: "initial_page \<in> reachable_pages"
| update: "p \<in> reachable_pages \<Longrightarrow> updateResults resp p \<in> reachable_pages"

text \<open>
  The invariant of the pages: every live chart is the instance that \<open>chartInstances\<close>
  holds for its canvas. Inside the loop, moreover, the live charts sit on distinct
  canvases, all numbered at most \<open>n\<close>.
\<close>

definition tracked :: "page \<Rightarrow> bool" where
  "tracked p =
     list_all (\<lambda>lc. map_of (chartInstances p) (snd lc) = Some (fst lc)) (live_charts p)"

definition loop_inv :: "nat \<Rightarrow> page \<Rightarrow> bool" where
  "loop_inv n p =
     (tracked p \<and> distinct (map snd (live_charts p))
      \<and> list_all (\<lambda>lc. snd lc \<le> n) (live_charts p))"

text \<open>
  The earlier variant (static/script.js) has one canvas, \<open>botChart\<close>, and one variable
  \<open>chartInstance\<close>. \<open>renderChart\<close> starts with
  \<^verbatim>\<open>if (chartInstance) { chartInstance.destroy(); }\<close> and ends its \<open>try\<close> block with
  \<^verbatim>\<open>chartInstance = new Chart(ctx, config)\<close>; \<open>updateInsights\<close> calls it when the response
  carries a chart configuration.
\<close>

record insight_page =
  chartInstance :: "nat option"
  live_bot_charts :: "nat list"
  next_bot_chart :: nat

record insight_response =
  insight_results :: "row list"
  chart_config :: "blueprint option"

definition initial_insight_page :: insight_page where
  "initial_insight_page = \<lparr>chartInstance = None, live_bot_charts = [], next_bot_chart = 0\<rparr>"

definition destroy_previous :: "insight_page \<Rightarrow> insight_page" where
  "destroy_previous p =
     (case chartInstance p of
        None \<Rightarrow> p
      | Some c \<Rightarrow> p\<lparr>live_bot_charts := filter (\<lambda>d. d \<noteq> c) (live_bot_charts p)\<rparr>)"

definition renderChart_script_page ::
  "blueprint \<Rightarrow> row list \<Rightarrow> insight_page \<Rightarrow> insight_page" where
  "renderChart_script_page config rows p =
     (let q = destroy_previous p in
      case renderChart_script config rows of
        Inl e \<Rightarrow> q
      | Inr chart \<Rightarrow>
          q\<lparr>chartInstance := Some (next_bot_chart q),
            live_bot_charts := live_bot_charts q @ [next_bot_chart q],
            next_bot_chart := Suc (next_bot_chart q)\<rparr>)"

definition updateInsights :: "insight_response \<Rightarrow> insight_page \<Rightarrow> insight_page" where
  "updateInsights resp p =
     (case chart_config resp of
        None \<Rightarrow> p
      | Some config \<Rightarrow> renderChart_script_page config (insight_results resp) p)"

inductive_set reachable_insight_pages :: "insight_page set" where
  initial_insight: "initial_insight_page \<in> reachable_insight_pages"
| insight_update:
    "p \<in> reachable_insight_pages \<Longrightarrow> updateInsights resp p \<in> reachable_insight_pages"

definition only_current :: "insight_page \<Rightarrow> bool" where
  "only_current p =
     (live_bot_charts p = []
      \<or> (case chartInstance p of None \<Rightarrow> False | Some c \<Rightarrow> live_bot_charts p = [c]))"

section \<open>Example data\<close>

text \<open>The rows and the bar blueprint of the specification's end-to-end scenario.\<close>

definition sales_rows :: "row list" where
  "sales_rows =
     [[''city'' \<mapsto> CStr ''NY'', ''sales'' \<mapsto> CNum (Fin 10)],
      [''city'' \<mapsto> CStr ''NY'', ''sales'' \<mapsto> CNum (Fin 5)],
      [''city'' \<mapsto> CStr ''LA'', ''sales'' \<mapsto> CNum (Fin 7)]]"

definition bar_blueprint :: blueprint where
  "bar_blueprint =
     \<lparr>config_type = Some ''bar'', data_labels = Seq [''city''], dataset_data = Seq [''sales'']\<rparr>"

text \<open>The same blueprint with the two column names as bare strings.\<close>

definition bare_blueprint :: blueprint where
  "bare_blueprint =
     \<lparr>config_type = Some ''bar'', data_labels = Bare ''city'', dataset_data = Bare ''sales''\<rparr>"

text \<open>Two rows with distinct labels.\<close>

definition city_rows :: "row list" where
  "city_rows =
     [[''city'' \<mapsto> CStr ''NY'', ''sales'' \<mapsto> CNum (Fin 10)],
      [''city'' \<mapsto> CStr ''LA'', ''sales'' \<mapsto> CNum (Fin 7)]]"

text \<open>The rows of the specification's example of a malformed cell.\<close>

definition malformed_rows :: "row list" where
  "malformed_rows =
     [[''cat'' \<mapsto> CStr ''a'', ''v'' \<mapsto> CStr ''x''],
      [''cat'' \<mapsto> CStr ''a'', ''v'' \<mapsto> CNum (Fin 5)]]"


text \<open>Sales by year, the later year first.\<close>

definition year_rows :: "row list" where
  "year_rows =
     [[''year'' \<mapsto> CNum (Fin 2021), ''sales'' \<mapsto> CNum (Fin 10)],
      [''year'' \<mapsto> CNum (Fin 2020), ''sales'' \<mapsto> CNum (Fin 7)]]"

text \<open>Championship titles: one for a driver, two for a constructor.\<close>

definition title_rows :: "row list" where
  "title_rows =
     [[''title'' \<mapsto> CStr ''driver''],
      [''title'' \<mapsto> CStr ''constructor''],
      [''title'' \<mapsto> CStr ''constructor'']]"

text \<open>Responses that carry the scenario's rows and one chart.\<close>

definition sales_response :: response where
  "sales_response = \<lparr>results = sales_rows, charts = [bar_blueprint]\<rparr>"

definition sales_insight :: insight_response where
  "sales_insight = \<lparr>insight_results = sales_rows, chart_config = Some bare_blueprint\<rparr>"

section \<open>Facts about the number model\<close>

lemma round_half_even_of_int: "round_half_even (of_int m) = m"
  by (simp add: round_half_even_def)

text \<open>A natural number below \<open>2 ^ 53\<close> is a binary64 value: rounding leaves it as it is.\<close>

lemma round_double_of_nat:
  assumes "0 < n" and "n < 2 ^ 53"
  shows "round_double (of_nat n) = Fin (of_nat n)"
proof -
  define e where "e = bitlen (int n) - 1"
  have pos: "0 < int n" using assms(1) by simp
  from bitlen_bounds[OF pos] have lo: "2 ^ nat e \<le> int n"
    by (simp add: e_def)
  have e0: "0 \<le> e"
    using bitlen_nonneg[of "int n"] bitlen_eq_zero_iff[of "int n"] pos by (simp add: e_def)
  have "int n < int (2 ^ 53)" using assms(2) by (simp only: of_nat_less_iff)
  then have n53: "int n < 2 ^ 53" by simp
  have "(2::int) ^ nat e < 2 ^ 53" using lo n53 by linarith
  then have "nat e < 53" by (rule power_less_imp_less_exp[rotated]) simp
  then have e52: "e \<le> 52" by simp
  have fl: "floor_log2 (of_nat n) = e"
    using assms(1) by (simp add: floor_log2_def e_def)
  define d where "d = nat (52 - e)"
  have ulp: "(2::rat) powi (e - 52) = 1 / 2 ^ d"
    using e52 by (simp add: power_int_def d_def inverse_eq_divide power_one_over nat_diff_distrib)
  have quot: "(of_nat n :: rat) / (1 / 2 ^ d) = of_int (int n * 2 ^ d)"
    by simp
  have r: "of_int (round_half_even ((of_nat n :: rat) / (1 / 2 ^ d))) * (1 / 2 ^ d) = (of_nat n :: rat)"
    unfolding quot round_half_even_of_int by simp
  have small: "\<not> (2::rat) powi 1024 \<le> of_nat n"
  proof -
    have "(of_nat n :: rat) < of_nat (2 ^ 53)" using assms(2) by (simp only: of_nat_less_iff)
    then have "(of_nat n :: rat) < 2 ^ 53" by simp
    also have "\<dots> \<le> 2 ^ 1024" by (rule power_increasing) simp_all
    finally show ?thesis by simp
  qed
  have m: "max e (- 1022) = e" using e0 by simp
  have a: "\<bar>of_nat n :: rat\<bar> = of_nat n" by simp
  have rr: "of_int (round_half_even (\<bar>of_nat n\<bar> / 2 powi (max (floor_log2 \<bar>of_nat n\<bar>) (- 1022) - 52)))
      * 2 powi (max (floor_log2 \<bar>of_nat n\<bar>) (- 1022) - 52) = (of_nat n :: rat)"
    by (simp only: a fl m ulp r)
  show ?thesis
    unfolding round_double_def Let_def rr using small assms(1) by simp
qed

lemma round_double_numeral [simp]:
  "(numeral k :: nat) < 2 ^ 53 \<Longrightarrow> round_double (numeral k) = Fin (numeral k)"
  using round_double_of_nat[of "numeral k"] by simp

lemma round_double_1 [simp]: "round_double 1 = Fin 1"
  using round_double_of_nat[of 1] by simp

lemma round_double_0 [simp]: "round_double 0 = Fin 0"
  by (simp add: round_double_def round_half_even_def Let_def)

lemma floor_rat_divide_numeral [simp]:
  "\<lfloor>numeral a / numeral b :: rat\<rfloor> = numeral a div numeral b"
  by (metis floor_divide_of_int_eq of_int_numeral)

text \<open>The definitions that evaluate a conversion, and the pipeline, on concrete data.\<close>

lemmas number_eval =
  positive_to_string_def shortest_digits.simps digit_candidates_def floor_log10_def
  compute_floorlog decimal_value_def closest_candidate_def digits_of_nat.simps
  parse_float_string_def unsigned_decimal_def exponent_part_def is_white_space_def
  is_digit_def nat_of_digits_def parseFloat_def Let_def

lemmas object_eval =
  aggregateDataForChart_def count_branch_def aggregated_branch_def grouped_branch_def
  result_of_def count_row_def sum_row_def group_row_def row_value_def row_get_def obj_get_def
  obj_set_def inherited_def object_prototype_member_def js_or_def js_plus_def
  object_keys_def object_values_def own_entries_def is_array_index_def
  toLowerCase_def to_lower_char_def label_of_def

lemma parseFloat_0 [simp]: "parseFloat (JNum (Fin 0)) = Fin 0"
  by (simp add: number_eval)

lemma parseFloat_5 [simp]: "parseFloat (JNum (Fin 5)) = Fin 5"
  by (simp add: number_eval)

lemma parseFloat_7 [simp]: "parseFloat (JNum (Fin 7)) = Fin 7"
  by (simp add: number_eval)

lemma parseFloat_10 [simp]: "parseFloat (JNum (Fin 10)) = Fin 10"
  by (simp add: number_eval)

lemma parseFloat_x [simp]: "parseFloat (JStr ''x'') = NaN"
  by (simp add: number_eval)

lemma positive_to_string_2020 [simp]: "positive_to_string 2020 = ''2020''"
  by (simp add: number_eval)

lemma positive_to_string_2021 [simp]: "positive_to_string 2021 = ''2021''"
  by (simp add: number_eval)

lemma positive_to_string_1 [simp]: "positive_to_string 1 = ''1''"
  by (simp add: number_eval)

text \<open>What a row does not own parses to \<open>NaN\<close>, inherited or not.\<close>

lemma parseFloat_inherited: "parseFloat (inherited k) = NaN"
  by (simp add: inherited_def object_prototype_member_def number_eval)

section \<open>Facts about objects\<close>

lemma map_fst_insort_key:
  "map fst (insort_key (\<lambda>p. f (fst p)) x xs) = insort_key f (fst x) (map fst xs)"
  by (induction xs) simp_all

lemma map_fst_sort_key:
  "map fst (sort_key (\<lambda>p. f (fst p)) xs) = sort_key f (map fst xs)"
  by (induction xs) (simp_all add: map_fst_insort_key)

lemma object_keys_eq:
  "object_keys obj =
     sort_key nat_of_digits (filter is_array_index (map fst obj))
     @ filter (\<lambda>k. \<not> is_array_index k) (map fst obj)"
  by (simp add: object_keys_def own_entries_def map_fst_sort_key filter_map o_def)

lemma keys_obj_set:
  "map fst (obj_set obj k v) =
     (if k \<in> set (map fst obj) \<or> k = ''__proto__'' then map fst obj else map fst obj @ [k])"
  by (auto simp: obj_set_def update_keys map_of_eq_None_iff)

lemma obj_set_twice: "obj_set (obj_set obj k v) k w = obj_set obj k w"
  by (auto simp: obj_set_def update_conv')

lemma obj_get_obj_set:
  "k \<noteq> ''__proto__'' \<or> map_of obj k \<noteq> None \<Longrightarrow> obj_get (obj_set obj k v) k = v"
  by (auto simp: obj_set_def obj_get_def update_conv')

lemma truthy_inherited_proto: "truthy (inherited ''__proto__'')"
  by (simp add: inherited_def object_prototype_member_def)

section \<open>Facts about the three loops\<close>

text \<open>
  The second and the third loop body do the same to the accumulator, on every row: where
  the entry is falsy, \<open>(aggregated[label] || 0) + value\<close> and the reset to 0 followed by
  \<open>+= value\<close> both store \<open>0 + value\<close>.
\<close>

lemma group_row_eq_sum_row: "group_row lk dk obj r = sum_row lk dk obj r"
proof -
  define k where "k = to_string (row_get r lk)"
  define v where "v = row_value dk r"
  show ?thesis
  proof (cases "truthy (obj_get obj k)")
    case True
    then show ?thesis
      by (simp add: group_row_def sum_row_def Let_def js_or_def flip: k_def v_def)
  next
    case False
    then have own: "k \<noteq> ''__proto__'' \<or> map_of obj k \<noteq> None"
      using truthy_inherited_proto by (auto simp: obj_get_def split: option.splits)
    show ?thesis
      using False obj_get_obj_set[OF own]
      by (simp add: group_row_def sum_row_def Let_def js_or_def obj_set_twice flip: k_def v_def)
  qed
qed

lemma grouped_eq_aggregated: "grouped_branch rows lk dk = aggregated_branch rows lk dk"
proof -
  have "group_row lk dk = sum_row lk dk"
    by (intro ext) (rule group_row_eq_sum_row)
  then show ?thesis
    by (simp add: grouped_branch_def aggregated_branch_def)
qed

lemma length_labels_values:
  "length (labels (aggregateDataForChart rows lk dk))
     = length (values' (aggregateDataForChart rows lk dk))"
  by (simp add: aggregateDataForChart_def count_branch_def aggregated_branch_def
      grouped_branch_def result_of_def object_keys_def object_values_def)

text \<open>
  The keys of an accumulator after a loop: every loop body assigns to the row's label, so
  the keys are the labels in first-encountered order, without \<open>__proto__\<close>.
\<close>

lemma keys_foldl:
  fixes f :: "jsobject \<Rightarrow> row \<Rightarrow> jsobject"
  assumes step: "\<And>obj r. map fst (f obj r) =
      (if label_of lk r \<in> set (map fst obj) \<or> label_of lk r = ''__proto__''
       then map fst obj else map fst obj @ [label_of lk r])"
  shows "map fst (foldl f obj rows)
     = map fst obj @ filter (\<lambda>x. x \<notin> set (map fst obj))
         (first_seen (filter (\<lambda>k. k \<noteq> ''__proto__'') (map (label_of lk) rows)))"
proof (induction rows arbitrary: obj)
  case Nil
  then show ?case by simp
next
  case (Cons r rows)
  show ?case
  proof (cases "label_of lk r \<in> set (map fst obj) \<or> label_of lk r = ''__proto__''")
    case True
    then have "map fst (f obj r) = map fst obj" by (simp add: step)
    with True show ?thesis
      by (auto simp: Cons.IH intro!: filter_cong)
  next
    case False
    then have "map fst (f obj r) = map fst obj @ [label_of lk r]" by (simp add: step)
    with False show ?thesis
      by (auto simp: Cons.IH intro!: filter_cong)
  qed
qed

lemma keys_counts:
  "map fst (foldl (count_row lk) [] rows)
     = first_seen (filter (\<lambda>k. k \<noteq> ''__proto__'') (map (label_of lk) rows))"
  using keys_foldl[of "count_row lk" lk "[]" rows]
  by (simp add: count_row_def Let_def keys_obj_set label_of_def)

lemma keys_sums:
  "map fst (foldl (sum_row lk dk) [] rows)
     = first_seen (filter (\<lambda>k. k \<noteq> ''__proto__'') (map (label_of lk) rows))"
  using keys_foldl[of "sum_row lk dk" lk "[]" rows]
  by (simp add: sum_row_def Let_def keys_obj_set label_of_def)

lemma labels_eq:
  "labels (aggregateDataForChart rows lk dk) =
     sort_key nat_of_digits
       (filter is_array_index
         (first_seen (filter (\<lambda>k. k \<noteq> ''__proto__'') (map (label_of lk) rows))))
     @ filter (\<lambda>k. \<not> is_array_index k)
         (first_seen (filter (\<lambda>k. k \<noteq> ''__proto__'') (map (label_of lk) rows)))"
  by (simp add: aggregateDataForChart_def count_branch_def aggregated_branch_def
      grouped_eq_aggregated result_of_def object_keys_eq keys_counts keys_sums)

lemma distinct_first_seen: "distinct (first_seen xs)"
  by (induction xs) simp_all

lemma set_first_seen: "set (first_seen xs) = set xs"
  by (induction xs) auto


lemma first_seen_snoc:
  "first_seen (xs @ [x]) = (if x \<in> set xs then first_seen xs else first_seen xs @ [x])"
  by (induction xs) (auto simp: set_first_seen)

text \<open>
  The counting loop on labels that \<open>Object.prototype\<close> does not define: the accumulator
  holds, for every label in first-encountered order, the number of its rows (fewer than
  \<open>2 ^ 53\<close> rows, so that every count is exact).
\<close>

lemma map_of_tabulate:
  "map_of (map (\<lambda>k. (k, f k)) ks) k = (if k \<in> set ks then Some (f k) else None)"
  by (induction ks) simp_all

lemma update_tabulate:
  assumes "distinct ks"
  shows "AList.update k v (map (\<lambda>j. (j, f j)) ks) =
     (if k \<in> set ks then map (\<lambda>j. (j, if j = k then v else f j)) ks
      else map (\<lambda>j. (j, f j)) ks @ [(k, v)])"
  using assms by (induction ks) auto

lemma sum_list_indicator:
  "distinct ks \<Longrightarrow> x \<in> set ks \<Longrightarrow> sum_list (map (\<lambda>k. if x = k then 1 else 0) ks) = (1::nat)"
  by (induction ks) auto

lemma sum_counts:
  assumes "distinct ks" and "f ` set rows \<subseteq> set ks"
  shows "sum_list (map (\<lambda>k. length (filter (\<lambda>r. f r = k) rows)) ks) = length rows"
  using assms(2)
proof (induction rows)
  case Nil
  then show ?case by simp
next
  case (Cons r rows)
  have "sum_list (map (\<lambda>k. length (filter (\<lambda>r. f r = k) (r # rows))) ks)
      = sum_list (map (\<lambda>k. (if f r = k then 1 else 0) + length (filter (\<lambda>r. f r = k) rows)) ks)"
    by (intro arg_cong[where f = sum_list] map_cong) simp_all
  also have "\<dots> = sum_list (map (\<lambda>k. if f r = k then 1 else 0) ks)
      + sum_list (map (\<lambda>k. length (filter (\<lambda>r. f r = k) rows)) ks)"
    by (simp add: sum_list_addf)
  also have "\<dots> = 1 + length rows"
    using Cons assms(1) by (simp add: sum_list_indicator)
  finally show ?case by simp
qed

lemma sum_list_insort_key:
  "sum_list (map h (insort_key g x xs)) = h x + sum_list (map h xs)"
  for h :: "'a \<Rightarrow> nat"
  by (induction xs) simp_all

lemma sum_list_sort_key: "sum_list (map h (sort_key g xs)) = sum_list (map h xs)"
  for h :: "'a \<Rightarrow> nat"
  by (induction xs) (simp_all add: sum_list_insort_key)

lemma sum_list_partition:
  "sum_list (map h (filter P xs)) + sum_list (map h (filter (\<lambda>x. \<not> P x) xs)) = sum_list (map h xs)"
  for h :: "'a \<Rightarrow> nat"
  by (induction xs) simp_all

lemma count_one_more:
  assumes "0 < c" and "Suc c < 2 ^ 53"
  shows "js_plus (js_or (JNum (Fin (of_nat c))) (JNum (Fin 0))) (JNum (Fin 1))
       = JNum (Fin (of_nat (Suc c)))"
proof -
  have "(of_nat c :: rat) + 1 = of_nat (Suc c)" by simp
  moreover have "round_double (of_nat (Suc c)) = Fin (of_nat (Suc c))"
    using assms(2) round_double_of_nat[of "Suc c"] by simp
  moreover have "(of_nat (Suc c) :: rat) \<noteq> 0"
    by (simp only: of_nat_eq_0_iff)
  ultimately have "num_add (Fin (of_nat c)) (Fin 1) = Fin (of_nat (Suc c))"
    by (simp only: num_add.simps if_False)
  then show ?thesis
    using assms(1) by (simp add: js_plus_def js_or_def)
qed

lemma count_first:
  "js_plus (js_or JUndefined (JNum (Fin 0))) (JNum (Fin 1)) = JNum (Fin 1)"
  by (simp add: js_plus_def js_or_def)

lemma counts_tabulated:
  assumes "\<forall>r\<in>set rows. object_prototype_member (label_of lk r) = None"
    and "length rows < 2 ^ 53"
  shows "foldl (count_row lk) [] rows
     = map (\<lambda>k. (k, JNum (Fin (of_nat (length (filter (\<lambda>r. label_of lk r = k) rows))))))
         (first_seen (map (label_of lk) rows))"
  using assms
proof (induction rows rule: rev_induct)
  case Nil
  then show ?case by simp
next
  case (snoc r rows)
  define ks where "ks = first_seen (map (label_of lk) rows)"
  define cnt where "cnt = (\<lambda>k. length (filter (\<lambda>r. label_of lk r = k) rows))"
  define key where "key = label_of lk r"
  define obj where "obj = map (\<lambda>k. (k, JNum (Fin (of_nat (cnt k))))) ks"
  have IH: "foldl (count_row lk) [] rows = obj"
    using snoc by (simp add: obj_def cnt_def ks_def)
  have dk: "distinct ks" by (simp add: ks_def distinct_first_seen)
  have sk: "set ks = label_of lk ` set rows" by (simp add: ks_def set_first_seen)
  have safe: "object_prototype_member key = None" using snoc.prems(1) by (simp add: key_def)
  then have np: "key \<noteq> ''__proto__''" by (auto simp: object_prototype_member_def)
  have step: "count_row lk obj r
      = obj_set obj key (js_plus (js_or (obj_get obj key) (JNum (Fin 0))) (JNum (Fin 1)))"
    by (simp add: count_row_def key_def label_of_def Let_def)
  have new: "map (\<lambda>k. (k, JNum (Fin (of_nat (length (filter (\<lambda>r. label_of lk r = k) (rows @ [r])))))))
         (first_seen (map (label_of lk) (rows @ [r])))
     = (if key \<in> set ks then map (\<lambda>k. (k, JNum (Fin (of_nat (if k = key then Suc (cnt k) else cnt k))))) ks
        else obj @ [(key, JNum (Fin 1))])"
  proof (cases "key \<in> set ks")
    case True
    then show ?thesis
      by (auto simp: first_seen_snoc sk key_def cnt_def simp flip: ks_def)
  next
    case False
    then have "cnt key = 0"
      unfolding cnt_def sk key_def filter_empty_conv length_0_conv by (metis imageI)
    with False show ?thesis
      by (auto simp: first_seen_snoc sk key_def cnt_def obj_def simp flip: ks_def)
  qed
  have "count_row lk obj r
     = (if key \<in> set ks then map (\<lambda>k. (k, JNum (Fin (of_nat (if k = key then Suc (cnt k) else cnt k))))) ks
        else obj @ [(key, JNum (Fin 1))])"
  proof (cases "key \<in> set ks")
    case True
    then have pos: "0 < cnt key"
      by (auto simp: cnt_def sk key_def filter_empty_conv)
    have "cnt key \<le> length rows" by (simp add: cnt_def)
    then have small: "Suc (cnt key) < 2 ^ 53" using snoc.prems(2) by simp
    have get: "obj_get obj key = JNum (Fin (of_nat (cnt key)))"
      using True by (simp add: obj_get_def obj_def map_of_tabulate)
    have "obj_set obj key v = map (\<lambda>j. (j, if j = key then v else JNum (Fin (of_nat (cnt j))))) ks" for v
      using True dk by (simp add: obj_set_def obj_def map_of_tabulate update_tabulate)
    then show ?thesis
      using True by (simp add: step get count_one_more[OF pos small] cong: if_cong)
  next
    case False
    have get: "obj_get obj key = JUndefined"
      using False safe by (simp add: obj_get_def obj_def map_of_tabulate inherited_def)
    have "obj_set obj key v = obj @ [(key, v)]" for v
      using False dk np by (simp add: obj_set_def obj_def map_of_tabulate update_tabulate)
    then show ?thesis
      using False by (simp add: step get count_first)
  qed
  with new IH show ?case by simp
qed

lemma count_branch_counts_rows:
  assumes "\<forall>r\<in>set rows. object_prototype_member (label_of lk r) = None"
    and "length rows < 2 ^ 53"
  shows "values' (count_branch rows lk)
       = map (\<lambda>k. JNum (Fin (of_nat (length (filter (\<lambda>r. label_of lk r = k) rows)))))
           (labels (count_branch rows lk))
     \<and> sum_list (map (\<lambda>k. length (filter (\<lambda>r. label_of lk r = k) rows))
           (labels (count_branch rows lk))) = length rows"
proof -
  define ks where "ks = first_seen (map (label_of lk) rows)"
  define f where "f = (\<lambda>k. JNum (Fin (of_nat (length (filter (\<lambda>r. label_of lk r = k) rows)))))"
  define obj where "obj = map (\<lambda>k. (k, f k)) ks"
  have obj: "foldl (count_row lk) [] rows = obj"
    using counts_tabulated[OF assms] by (simp add: obj_def f_def ks_def)
  have "snd p = f (fst p)" if "p \<in> set (own_entries obj)" for p
    using that by (auto simp: own_entries_def obj_def)
  then have v: "object_values obj = map f (object_keys obj)"
    by (simp add: object_values_def object_keys_def)
  have k: "object_keys obj = sort_key nat_of_digits (filter is_array_index ks)
      @ filter (\<lambda>k. \<not> is_array_index k) ks"
    by (simp add: object_keys_eq obj_def o_def)
  have "sum_list (map (\<lambda>k. length (filter (\<lambda>r. label_of lk r = k) rows)) (object_keys obj))
      = sum_list (map (\<lambda>k. length (filter (\<lambda>r. label_of lk r = k) rows)) ks)"
    by (simp add: k sum_list_sort_key sum_list_partition)
  also have "\<dots> = length rows"
    by (rule sum_counts) (simp_all add: ks_def distinct_first_seen set_first_seen)
  finally show ?thesis
    using v by (simp add: count_branch_def result_of_def obj f_def)
qed

text \<open>
  So with a value key that lower-cases to \<open>count\<close>, on such labels, every value is the
  number of the rows of its label, and the values add up to the number of rows.
\<close>

lemma count_mode_counts_rows:
  assumes "toLowerCase dk = ''count''"
    and "\<forall>r\<in>set rows. object_prototype_member (label_of lk r) = None"
    and "length rows < 2 ^ 53"
  shows "values' (aggregateDataForChart rows lk dk)
       = map (\<lambda>k. JNum (Fin (of_nat (length (filter (\<lambda>r. label_of lk r = k) rows)))))
           (labels (aggregateDataForChart rows lk dk))
     \<and> sum_list (map (\<lambda>k. length (filter (\<lambda>r. label_of lk r = k) rows))
           (labels (aggregateDataForChart rows lk dk))) = length rows"
  using count_branch_counts_rows[OF assms(2,3)] assms(1)
  by (simp add: aggregateDataForChart_def)

text \<open>A cell that does not parse, and the number 0 in its place, give the same chart.\<close>

lemma row_value_unparseable:
  "parseFloat (row_get r dk) = NaN \<Longrightarrow> row_value dk r = JNum (Fin 0)"
  by (simp add: row_value_def js_or_def)

lemma row_value_zero_cell: "row_value dk (r(dk \<mapsto> CNum (Fin 0))) = JNum (Fin 0)"
  by (simp add: row_value_def js_or_def row_get_def)

lemma row_get_other: "lk \<noteq> dk \<Longrightarrow> row_get (r(dk \<mapsto> c)) lk = row_get r lk"
  by (simp add: row_get_def)

lemma foldl_replace_row:
  assumes "\<And>acc. f acc r = f acc r'"
  shows "foldl f acc (pre @ r # post) = foldl f acc (pre @ r' # post)"
  by (simp add: assms)

lemma aggregate_unparseable_cell:
  assumes "lk \<noteq> dk" and "parseFloat (row_get r dk) = NaN"
  shows "aggregateDataForChart (pre @ r # post) lk dk
       = aggregateDataForChart (pre @ r(dk \<mapsto> CNum (Fin 0)) # post) lk dk"
proof -
  have c: "count_row lk acc r = count_row lk acc (r(dk \<mapsto> CNum (Fin 0)))" for acc
    using assms(1) by (simp add: count_row_def row_get_other)
  have s: "sum_row lk dk acc r = sum_row lk dk acc (r(dk \<mapsto> CNum (Fin 0)))" for acc
    using assms by (simp add: sum_row_def row_get_other row_value_unparseable row_value_zero_cell)
  have "count_branch (pre @ r # post) lk = count_branch (pre @ r(dk \<mapsto> CNum (Fin 0)) # post) lk"
    unfolding count_branch_def using foldl_replace_row[of "count_row lk", OF c] by simp
  moreover have "aggregated_branch (pre @ r # post) lk dk
      = aggregated_branch (pre @ r(dk \<mapsto> CNum (Fin 0)) # post) lk dk"
    unfolding aggregated_branch_def using foldl_replace_row[of "sum_row lk dk", OF s] by simp
  ultimately show ?thesis
    by (simp add: aggregateDataForChart_def grouped_eq_aggregated)
qed



section \<open>Facts about the pages\<close>

lemma live_foldl_destroy:
  "live_charts (foldl (\<lambda>q c. destroy c q) p cs) = filter (\<lambda>lc. fst lc \<notin> set cs) (live_charts p)"
  by (induction cs arbitrary: p) (auto simp: destroy_def intro!: filter_cong)

text \<open>On a tracked page, destroying the instances of \<open>chartInstances\<close> destroys every chart.\<close>

lemma live_destroy_all:
  assumes "tracked p"
  shows "live_charts (destroy_all p) = []"
proof -
  have "fst lc \<in> set (map snd (chartInstances p))" if "lc \<in> set (live_charts p)" for lc
  proof -
    from assms that have "map_of (chartInstances p) (snd lc) = Some (fst lc)"
      by (simp add: tracked_def list_all_iff)
    then have "(snd lc, fst lc) \<in> set (chartInstances p)" by (rule map_of_SomeD)
    then show ?thesis by force
  qed
  then show ?thesis
    by (simp add: destroy_all_def live_foldl_destroy filter_empty_conv)
qed

text \<open>A round of the loop draws on a canvas numbered above those in use.\<close>

lemma loop_inv_render:
  assumes "loop_inv n p" and "n < m"
  shows "loop_inv m (renderChart_page rows p (m, c))"
proof (cases "renderChart c rows")
  case (Inl e)
  with assms show ?thesis
    by (auto simp: renderChart_page_def loop_inv_def list_all_iff)
next
  case (Inr config)
  have fresh: "m \<notin> snd ` set (live_charts p)"
    using assms by (auto simp: loop_inv_def list_all_iff)
  with assms Inr show ?thesis
    by (auto simp: renderChart_page_def loop_inv_def list_all_iff new_Chart_def tracked_def
        update_conv')
qed

lemma loop_inv_foldl:
  assumes "loop_inv n p"
  shows "loop_inv (n + length cs) (foldl (renderChart_page rows) p (enumerate (Suc n) cs))"
  using assms
proof (induction cs arbitrary: n p)
  case Nil
  then show ?case by simp
next
  case (Cons c cs)
  have "loop_inv (Suc n) (renderChart_page rows p (Suc n, c))"
    using Cons.prems by (rule loop_inv_render) simp
  from Cons.IH[OF this] show ?case by simp
qed

lemma take_enumerate: "take k (enumerate n xs) = enumerate n (take k xs)"
proof (induction xs arbitrary: n k)
  case Nil
  then show ?case by simp
next
  case (Cons x xs)
  then show ?case by (cases k) simp_all
qed

lemma loop_inv_loop_state:
  assumes "tracked p"
  shows "loop_inv k (loop_state resp p k)"
proof -
  have start: "loop_inv 0 (destroy_all p)"
    using assms by (simp add: loop_inv_def live_destroy_all tracked_def)
  have "take k (numbered_charts resp) = enumerate (Suc 0) (take k (take 4 (charts resp)))"
    by (simp add: numbered_charts_def take_enumerate)
  moreover have "loop_inv (0 + length (take k (take 4 (charts resp))))
     (foldl (renderChart_page (results resp)) (destroy_all p)
        (enumerate (Suc 0) (take k (take 4 (charts resp)))))"
    using start by (rule loop_inv_foldl)
  ultimately have "loop_inv (length (take k (take 4 (charts resp)))) (loop_state resp p k)"
    by (simp add: loop_state_def)
  then show ?thesis
    by (auto simp: loop_inv_def list_all_iff)
qed

lemma updateResults_loop_state: "updateResults resp p = loop_state resp p 4"
  by (simp add: updateResults_def loop_state_def numbered_charts_def)

lemma reachable_tracked: "p \<in> reachable_pages \<Longrightarrow> tracked p"
proof (induction rule: reachable_pages.induct)
  case initial
  then show ?case by (simp add: initial_page_def tracked_def)
next
  case (update p resp)
  then show ?case
    using loop_inv_loop_state[of p 4 resp] by (simp add: updateResults_loop_state loop_inv_def)
qed

lemma live_destroy_previous: "only_current p \<Longrightarrow> live_bot_charts (destroy_previous p) = []"
  by (auto simp: only_current_def destroy_previous_def split: option.splits)

lemma only_current_render:
  "only_current p \<Longrightarrow> only_current (renderChart_script_page config rows p)"
  by (cases "renderChart_script config rows")
     (simp_all add: renderChart_script_page_def Let_def live_destroy_previous only_current_def)

lemma reachable_only_current: "p \<in> reachable_insight_pages \<Longrightarrow> only_current p"
proof (induction rule: reachable_insight_pages.induct)
  case initial_insight
  then show ?case by (simp add: only_current_def initial_insight_page_def)
next
  case (insight_update p resp)
  then show ?case
    by (cases "chart_config resp") (simp_all add: updateInsights_def only_current_render)
qed

section \<open>The claims\<close>

text \<open>
  C1. For the rows \<open>{city: "NY", sales: 10}\<close>, \<open>{city: "NY", sales: 5}\<close>,
  \<open>{city: "LA", sales: 7}\<close> and a bar blueprint whose label key is \<open>city\<close> and whose
  value key is \<open>sales\<close>, the resolved labels are \<open>["NY", "LA"]\<close> and the values
  \<open>[15, 7]\<close>: the two rows of \<open>NY\<close> are summed, and the labels keep the order in which
  they were first seen.
\<close>

theorem sales_by_city_resolved:
  "aggregateDataForChart sales_rows ''city'' ''sales''
     = \<lparr>labels = [''NY'', ''LA''], values' = [JNum (Fin 15), JNum (Fin 7)]\<rparr>
   \<and> renderChart bar_blueprint sales_rows
     = Inr \<lparr>labels = [''NY'', ''LA''], values' = [JNum (Fin 15), JNum (Fin 7)]\<rparr>"
  by (simp add: renderChart_def bar_blueprint_def sales_rows_def object_eval is_digit_def)

text \<open>
  C2, as the code has it. The claim is that every variant takes a column name both as a
  bare string and as a one-element sequence, with the same result. The aggregating
  \<open>renderChart\<close> reads element 0 of the field: of the sequence \<open>["city"]\<close> that is the
  column name, of the bare string \<open>"city"\<close> it is the first character \<open>"c"\<close>, and the
  chart of the scenario's rows collapses to the one label \<open>undefined\<close>.
\<close>

theorem bare_key_counterexample:
  "renderChart bare_blueprint sales_rows
     = Inr \<lparr>labels = [''undefined''], values' = [JNum (Fin 0)]\<rparr>
   \<and> renderChart bar_blueprint sales_rows
     = Inr \<lparr>labels = [''NY'', ''LA''], values' = [JNum (Fin 15), JNum (Fin 7)]\<rparr>"
  by (simp add: renderChart_def bare_blueprint_def bar_blueprint_def sales_rows_def
      object_eval number_eval)

text \<open>
  C2, amended. The earlier \<open>renderChart\<close> (static/script.js) uses the field itself as the
  property key, and a one-element sequence stands for the same key as its element: for a
  non-empty column name the bare string and the one-element sequence resolve alike (the
  guard \<open>!labelKey\<close> rejects the empty bare string only). The aggregating \<open>renderChart\<close>
  resolves a one-element sequence by the column it names.
\<close>

theorem key_shapes:
  "(s \<noteq> [] \<and> t \<noteq> [] \<longrightarrow>
      renderChart_script \<lparr>config_type = ty, data_labels = Bare s, dataset_data = Bare t\<rparr> rows
      = renderChart_script \<lparr>config_type = ty, data_labels = Seq [s], dataset_data = Seq [t]\<rparr> rows)
   \<and> renderChart \<lparr>config_type = Some ty', data_labels = Seq [s], dataset_data = Seq [t]\<rparr> rows
      = Inr (aggregateDataForChart rows s t)"
  by (simp add: renderChart_script_def renderChart_def)

theorem key_shapes_witness:
  "''city'' \<noteq> [] \<and> ''sales'' \<noteq> []
   \<and> renderChart_script
        \<lparr>config_type = None, data_labels = Bare ''city'', dataset_data = Bare ''sales''\<rparr> sales_rows
     = renderChart_script
        \<lparr>config_type = None, data_labels = Seq [''city''], dataset_data = Seq [''sales'']\<rparr> sales_rows
   \<and> renderChart
        \<lparr>config_type = Some ''bar'', data_labels = Seq [''city''], dataset_data = Seq [''sales'']\<rparr>
        sales_rows
     = Inr (aggregateDataForChart sales_rows ''city'' ''sales'')"
  using key_shapes[of "''city''" "''sales''" None sales_rows "''bar''"]
  by simp

text \<open>
  C3, at an input where the code does not count. The claim is that with the value key
  \<open>count\<close> every value is the number of rows of its label, so that the values add up to
  the number of rows. The accumulator \<open>counts\<close> is an object literal: for the label
  \<open>constructor\<close> the first read \<open>counts[label]\<close> yields the inherited function \<open>Object\<close>,
  which is truthy, and \<open>+ 1\<close> appends to its text. Of the three rows below, two have that
  label; its value is a string, not the number 2. (On labels that \<open>Object.prototype\<close> does
  not define, \<open>count_mode_counts_rows\<close> shows that the code counts as the claim says.)
\<close>

theorem count_of_inherited_name:
  "aggregateDataForChart title_rows ''title'' ''count''
     = \<lparr>labels = [''driver'', ''constructor''],
        values' = [JNum (Fin 1), JStr ''function Object() { [native code] }11'']\<rparr>"
  by (simp add: title_rows_def object_eval number_eval)

text \<open>
  C4. For every row set and every pair of keys, the labels and the values that
  \<open>aggregateDataForChart\<close> returns have the same length.
\<close>

theorem labels_values_same_length:
  "length (labels (aggregateDataForChart rows labelKey dataKey))
     = length (values' (aggregateDataForChart rows labelKey dataKey))"
  by (rule length_labels_values)

text \<open>
  C5. Every cell of the value column goes through \<open>parseFloat\<close>, and a cell that does not
  parse as a number, or that the row lacks, adds the number 0 to the sum of its label; the
  aggregation returns its chart all the same. Where the label column is another column,
  the chart is the one of the row set with the number 0 in that cell. In particular the rows
  \<open>{cat: "a", v: "x"}\<close>, \<open>{cat: "a", v: 5}\<close> summed on \<open>v\<close> give 5 for the label \<open>a\<close>.
\<close>

theorem malformed_cells_count_as_zero:
  assumes "r dataKey = None \<or> parseFloat (row_get r dataKey) = NaN"
  shows "row_value dataKey r = JNum (Fin 0)
         \<and> (labelKey \<noteq> dataKey \<longrightarrow>
              aggregateDataForChart (pre @ r # post) labelKey dataKey
              = aggregateDataForChart (pre @ r(dataKey \<mapsto> CNum (Fin 0)) # post) labelKey dataKey)
         \<and> aggregateDataForChart malformed_rows ''cat'' ''v''
           = \<lparr>labels = [''a''], values' = [JNum (Fin 5)]\<rparr>"
proof -
  have nan: "parseFloat (row_get r dataKey) = NaN"
    using assms by (auto simp: row_get_def parseFloat_inherited)
  have "aggregateDataForChart malformed_rows ''cat'' ''v''
           = \<lparr>labels = [''a''], values' = [JNum (Fin 5)]\<rparr>"
    by (simp add: malformed_rows_def object_eval is_digit_def)
  with nan show ?thesis
    by (simp add: row_value_unparseable aggregate_unparseable_cell)
qed

theorem malformed_cells_count_as_zero_witness:
  "parseFloat (row_get [''cat'' \<mapsto> CStr ''a'', ''v'' \<mapsto> CStr ''x''] ''v'') = NaN
   \<and> row_value ''v'' [''cat'' \<mapsto> CStr ''a'', ''v'' \<mapsto> CStr ''x''] = JNum (Fin 0)
   \<and> ''cat'' \<noteq> ''v''
   \<and> aggregateDataForChart malformed_rows ''cat'' ''v''
     = aggregateDataForChart
         [[''cat'' \<mapsto> CStr ''a'', ''v'' \<mapsto> CNum (Fin 0)],
          [''cat'' \<mapsto> CStr ''a'', ''v'' \<mapsto> CNum (Fin 5)]] ''cat'' ''v''
   \<and> aggregateDataForChart malformed_rows ''cat'' ''v''
     = \<lparr>labels = [''a''], values' = [JNum (Fin 5)]\<rparr>"
proof -
  have 1: "''cat'' \<noteq> ''v''" by simp
  have 2: "parseFloat (row_get [''cat'' \<mapsto> CStr ''a'', ''v'' \<mapsto> CStr ''x''] ''v'') = NaN"
    by (simp add: row_get_def)
  note w = malformed_cells_count_as_zero[OF disjI2, OF 2, of "''cat''" "[]"
      "[[''cat'' \<mapsto> CStr ''a'', ''v'' \<mapsto> CNum (Fin 5)]]"]
  from w[THEN conjunct2, THEN conjunct1] 1 have 3:
    "aggregateDataForChart malformed_rows ''cat'' ''v''
     = aggregateDataForChart
         [[''cat'' \<mapsto> CStr ''a'', ''v'' \<mapsto> CNum (Fin 0)],
          [''cat'' \<mapsto> CStr ''a'', ''v'' \<mapsto> CNum (Fin 5)]] ''cat'' ''v''"
    by (simp add: malformed_rows_def)
  from 2 w[THEN conjunct1] 1 3 w[THEN conjunct2, THEN conjunct2] show ?thesis
    by (intro conjI)
qed




text \<open>
  C7, as the code has it. The claim is that the labels come in the order in which the
  rows first show them. \<open>Object.keys\<close> lists the keys that are array indices first, in
  ascending numeric order: of the rows for 2021 and then 2020 the labels are
  \<open>["2020", "2021"]\<close>, and the first-encountered order is \<open>["2021", "2020"]\<close>.
\<close>

theorem year_labels_counterexample:
  "labels (aggregateDataForChart year_rows ''year'' ''sales'') = [''2020'', ''2021'']
   \<and> first_seen (map (label_of ''year'') year_rows) = [''2021'', ''2020'']"
  by (simp add: year_rows_def object_eval is_digit_def nat_of_digits_def)

text \<open>
  C7, amended. On a row set none of whose stringified labels is \<open>__proto__\<close>, the labels
  are the distinct stringified label values: those that are array indices (canonical
  decimal numerals below \<open>2 ^ 32 - 1\<close>) first, in ascending numeric order, then all the
  others in first-encountered order.
\<close>

theorem labels_order:
  assumes "''__proto__'' \<notin> set (map (label_of labelKey) rows)"
  shows "labels (aggregateDataForChart rows labelKey dataKey) =
     sort_key nat_of_digits (filter is_array_index (first_seen (map (label_of labelKey) rows)))
     @ filter (\<lambda>k. \<not> is_array_index k) (first_seen (map (label_of labelKey) rows))"
proof -
  have "\<forall>k\<in>set (map (label_of labelKey) rows). k \<noteq> ''__proto__''"
    using assms by metis
  then have "filter (\<lambda>k. k \<noteq> ''__proto__'') (map (label_of labelKey) rows)
      = map (label_of labelKey) rows"
    by (rule filter_True)
  then show ?thesis by (simp only: labels_eq)
qed

theorem labels_order_witness:
  "''__proto__'' \<notin> set (map (label_of ''city'') sales_rows)
   \<and> first_seen (map (label_of ''city'') sales_rows) = [''NY'', ''LA'']
   \<and> labels (aggregateDataForChart sales_rows ''city'' ''sales'') = [''NY'', ''LA'']"
proof -
  have 1: "''__proto__'' \<notin> set (map (label_of ''city'') sales_rows)"
    by (simp add: sales_rows_def label_of_def row_get_def)
  have 2: "first_seen (map (label_of ''city'') sales_rows) = [''NY'', ''LA'']"
    by (simp add: sales_rows_def label_of_def row_get_def)
  from labels_order[OF 1, of "''sales''"] 1 2 show ?thesis
    by (simp add: is_array_index_def is_digit_def)
qed

text \<open>
  C8. On a row set in which every row has a label of its own, the sums of the small
  complete row set (the specification's raw mode) and group-and-sum return the same labels
  and the same values. (By \<open>grouped_eq_aggregated\<close> the two loops agree on every row set.)
\<close>

theorem raw_and_grouped_agree_on_unique_labels:
  assumes "distinct (map (label_of labelKey) rows)"
  shows "aggregated_branch rows labelKey dataKey = grouped_branch rows labelKey dataKey"
  by (simp add: grouped_eq_aggregated)

theorem raw_and_grouped_agree_on_unique_labels_witness:
  "distinct (map (label_of ''city'') city_rows)
   \<and> aggregated_branch city_rows ''city'' ''sales'' = grouped_branch city_rows ''city'' ''sales''"
proof -
  have d: "distinct (map (label_of ''city'') city_rows)"
    by (simp add: city_rows_def label_of_def row_get_def)
  from d raw_and_grouped_agree_on_unique_labels[OF d, of "''sales''"] show ?thesis by simp
qed

text \<open>
  C9. In every state the page reaches, each canvas has at most one live chart, and a canvas
  that is about to be drawn on has none. In the aggregating variant, \<open>updateResults\<close>
  destroys every instance before its loop: after \<open>k\<close> rounds of the loop the live charts
  sit on distinct canvases, and none on the canvas of round \<open>k + 1\<close>. In the earlier
  variant, \<open>renderChart\<close> destroys \<open>chartInstance\<close> first: after that no chart is alive on
  \<open>botChart\<close>, and between two calls at most one is.
\<close>

theorem one_live_chart_per_canvas:
  "(p \<in> reachable_pages \<longrightarrow>
      distinct (map snd (live_charts (loop_state resp p k)))
      \<and> Suc k \<notin> snd ` set (live_charts (loop_state resp p k)))
   \<and> (q \<in> reachable_insight_pages \<longrightarrow>
      live_bot_charts (destroy_previous q) = [] \<and> length (live_bot_charts q) \<le> 1)"
proof (intro conjI impI)
  assume "p \<in> reachable_pages"
  then have inv: "loop_inv k (loop_state resp p k)"
    by (intro loop_inv_loop_state reachable_tracked)
  from inv show "distinct (map snd (live_charts (loop_state resp p k)))"
    by (simp add: loop_inv_def)
  from inv show "Suc k \<notin> snd ` set (live_charts (loop_state resp p k))"
    by (auto simp: loop_inv_def list_all_iff)
next
  assume "q \<in> reachable_insight_pages"
  then have cur: "only_current q" by (rule reachable_only_current)
  then show "live_bot_charts (destroy_previous q) = []" by (rule live_destroy_previous)
  from cur show "length (live_bot_charts q) \<le> 1"
    by (auto simp: only_current_def split: option.splits)
qed

theorem one_live_chart_per_canvas_witness:
  "updateResults sales_response initial_page \<in> reachable_pages
   \<and> live_charts (updateResults sales_response initial_page) = [(0, 1)]
   \<and> distinct (map snd (live_charts
        (loop_state sales_response (updateResults sales_response initial_page) 1)))
   \<and> Suc 1 \<notin> snd ` set (live_charts
        (loop_state sales_response (updateResults sales_response initial_page) 1))
   \<and> updateInsights sales_insight initial_insight_page \<in> reachable_insight_pages
   \<and> live_bot_charts (updateInsights sales_insight initial_insight_page) = [0]
   \<and> live_bot_charts (destroy_previous (updateInsights sales_insight initial_insight_page)) = []
   \<and> length (live_bot_charts (updateInsights sales_insight initial_insight_page)) \<le> 1"
proof -
  have 1: "updateResults sales_response initial_page \<in> reachable_pages"
    by (intro reachable_pages.intros)
  have 2: "updateInsights sales_insight initial_insight_page \<in> reachable_insight_pages"
    by (intro reachable_insight_pages.intros)
  have 3: "live_charts (updateResults sales_response initial_page) = [(0, 1)]"
    by (simp add: updateResults_def numbered_charts_def sales_response_def initial_page_def
        destroy_all_def renderChart_page_def renderChart_def bar_blueprint_def new_Chart_def)
  have 4: "live_bot_charts (updateInsights sales_insight initial_insight_page) = [0]"
    by (simp add: updateInsights_def sales_insight_def initial_insight_page_def
        renderChart_script_page_def renderChart_script_def bare_blueprint_def
        destroy_previous_def)
  from one_live_chart_per_canvas[of "updateResults sales_response initial_page" sales_response 1
      "updateInsights sales_insight initial_insight_page"] 1 2 3 4
  show ?thesis by simp
qed


end
